theory Spec2Isabelle
  imports Complex_Main "HOL-Library.Log_Nat"
begin

section \<open>JavaScript values and strings\<close>

text \<open>
  The task store of \<^verbatim>\<open>script.js\<close> (class \<^verbatim>\<open>TaskManager\<close>) is embedded as pure
  functions over an explicit state. A JavaScript string is a \<^typ>\<open>string\<close>: one
  \<^typ>\<open>char\<close> stands for one UTF-16 code unit below 256, so the strings covered are
  the Latin-1 ones. A JavaScript number is an \<^typ>\<open>int\<close>: the store only counts and
  increments, which is exact on doubles below \<open>2 ^ 53\<close>; the one place where the source
  divides (\<^verbatim>\<open>getStats\<close>) is modelled with double rounding written out.
\<close>

datatype js =
    Undefined
  | Null
  | Bool bool
  | Num int
  | Str string
  | Arr "js list"
  | Obj "(string \<times> js) list"

datatype error = Error string | SyntaxError

text \<open>
  \<^verbatim>\<open>String.prototype.trim\<close> removes WhiteSpace and LineTerminator code units from both
  ends: below 256 these are TAB, LF, VT, FF, CR, SP and NBSP.
\<close>

definition isWhiteSpace :: "char \<Rightarrow> bool" where
  "isWhiteSpace c \<longleftrightarrow>
     c = CHR 0x09 \<or> c = CHR 0x0A \<or> c = CHR 0x0B \<or> c = CHR 0x0C \<or> c = CHR 0x0D \<or>
     c = CHR 0x20 \<or> c = CHR 0xA0"

definition trim :: "string \<Rightarrow> string" where
  "trim s = rev (dropWhile isWhiteSpace (rev (dropWhile isWhiteSpace s)))"

section \<open>JSON.stringify\<close>

text \<open>
  \<^verbatim>\<open>JSON.stringify(value)\<close> with no replacer and no indentation, on the values above.
  A property whose value is \<^verbatim>\<open>undefined\<close> is left out of an object; an
  \<^verbatim>\<open>undefined\<close> array element is written \<^verbatim>\<open>null\<close>. The store only ever
  stringifies an array.
\<close>

fun show_nat :: "nat \<Rightarrow> string" where
  "show_nat n =
     (if n < 10 then [''0123456789'' ! n]
      else show_nat (n div 10) @ [''0123456789'' ! (n mod 10)])"

declare show_nat.simps [simp del]

definition show_int :: "int \<Rightarrow> string" where
  "show_int n = (if n < 0 then ''-'' @ show_nat (nat (- n)) else show_nat (nat n))"

definition hex2 :: "nat \<Rightarrow> string" where
  "hex2 k = [''0123456789abcdef'' ! (k div 16 mod 16), ''0123456789abcdef'' ! (k mod 16)]"

definition quote_char :: "char \<Rightarrow> string" where
  "quote_char c =
     (if c = CHR 0x08 then [CHR 0x5C, CHR ''b'']
      else if c = CHR 0x09 then [CHR 0x5C, CHR ''t'']
      else if c = CHR 0x0A then [CHR 0x5C, CHR ''n'']
      else if c = CHR 0x0C then [CHR 0x5C, CHR ''f'']
      else if c = CHR 0x0D then [CHR 0x5C, CHR ''r'']
      else if c = CHR 0x22 then [CHR 0x5C, CHR 0x22]
      else if c = CHR 0x5C then [CHR 0x5C, CHR 0x5C]
      else if (of_char c :: nat) < 32 then [CHR 0x5C, CHR ''u'', CHR ''0'', CHR ''0''] @ hex2 (of_char c)
      else [c])"

definition quote :: "string \<Rightarrow> string" where
  "quote s = [CHR 0x22] @ concat (map quote_char s) @ [CHR 0x22]"

fun join :: "string \<Rightarrow> string list \<Rightarrow> string" where
  "join sep [] = []"
| "join sep [x] = x"
| "join sep (x # y # ys) = x @ sep @ join sep (y # ys)"

fun JSON_stringify :: "js \<Rightarrow> string" where
  "JSON_stringify Undefined = ''null''"
| "JSON_stringify Null = ''null''"
| "JSON_stringify (Bool b) = (if b then ''true'' else ''false'')"
| "JSON_stringify (Num n) = show_int n"
| "JSON_stringify (Str s) = quote s"
| "JSON_stringify (Arr xs) = ''['' @ join '','' (map JSON_stringify xs) @ '']''"
| "JSON_stringify (Obj ps) =
     ''{'' @ join '','' (map (\<lambda>(k, v). quote k @ '':'' @ JSON_stringify v)
                          (filter (\<lambda>(k, v). v \<noteq> Undefined) ps)) @ ''}''"

section \<open>The task store\<close>

text \<open>
  A task object. \<^verbatim>\<open>addTask\<close> builds it with six properties; \<^verbatim>\<open>completedAt\<close> is
  added by the first \<^verbatim>\<open>toggleTaskCompletion\<close>, so until then reading it gives
  \<^verbatim>\<open>undefined\<close>, which is what \<^const>\<open>Undefined\<close> in that field stands for.
  \<^verbatim>\<open>date\<close> and \<^verbatim>\<open>priority\<close> hold whatever value the caller passed.
\<close>

record task =
  id' :: int
  text' :: string
  completed :: bool
  date :: js
  priority :: js
  createdAt :: string
  completedAt :: js

text \<open>The own properties of a task object, in the order the source creates them.\<close>

definition js_of_task :: "task \<Rightarrow> js" where
  "js_of_task t = Obj
     [(''id'', Num (id' t)),
      (''text'', Str (text' t)),
      (''completed'', Bool (completed t)),
      (''date'', date t),
      (''priority'', priority t),
      (''createdAt'', Str (createdAt t)),
      (''completedAt'', completedAt t)]"

text \<open>
  The state: the two fields of the \<^verbatim>\<open>TaskManager\<close> instance and the browser's
  \<^verbatim>\<open>localStorage\<close>, which \<^verbatim>\<open>getItem\<close> reads (\<^verbatim>\<open>null\<close> for a missing key is
  \<^const>\<open>None\<close>) and \<^verbatim>\<open>setItem\<close> writes. The storage is a map without a size
  limit, so \<^verbatim>\<open>setItem\<close> always succeeds.
\<close>

record TaskManager =
  tasks :: "task list"
  nextId :: int
  localStorage :: "string \<rightharpoonup> string"

definition saveTasks :: "TaskManager \<Rightarrow> TaskManager" where
  "saveTasks s =
     s\<lparr>localStorage := (localStorage s)(''tasks'' \<mapsto> JSON_stringify (Arr (map js_of_task (tasks s))))\<rparr>"

text \<open>\<^verbatim>\<open>Math.max(...ids) + 1\<close> for a non-empty collection, else 1.\<close>

definition getNextId :: "task list \<Rightarrow> int" where
  "getNextId ts = (case map id' ts of [] \<Rightarrow> 1 | i # is \<Rightarrow> fold max is i + 1)"

text \<open>
  \<^verbatim>\<open>addTask(text, date = null, priority = 'medium')\<close>. A default applies when the
  argument is \<^verbatim>\<open>undefined\<close>. \<open>now\<close> is what \<^verbatim>\<open>new Date().toISOString()\<close> returns
  at the call. The result is the thrown error or the returned task, with the state
  after the call.
\<close>

definition default_arg :: "js \<Rightarrow> js \<Rightarrow> js" where
  "default_arg d v = (if v = Undefined then d else v)"

definition addTask :: "string \<Rightarrow> js \<Rightarrow> js \<Rightarrow> string \<Rightarrow> TaskManager \<Rightarrow> (error + task) \<times> TaskManager" where
  "addTask txt date_arg priority_arg now s =
     (if trim txt = [] then (Inl (Error ''Task text cannot be empty''), s)
      else
        let newTask = \<lparr>id' = nextId s,
                       text' = trim txt,
                       completed = False,
                       date = default_arg Null date_arg,
                       priority = default_arg (Str ''medium'') priority_arg,
                       createdAt = now,
                       completedAt = Undefined\<rparr>
        in (Inr newTask,
            saveTasks (s\<lparr>nextId := nextId s + 1, tasks := tasks s @ [newTask]\<rparr>)))"

definition getAllTasks :: "TaskManager \<Rightarrow> task list" where
  "getAllTasks s = tasks s"

definition getCompletedTasks :: "TaskManager \<Rightarrow> task list" where
  "getCompletedTasks s = filter (\<lambda>t. completed t) (tasks s)"

definition getPendingTasks :: "TaskManager \<Rightarrow> task list" where
  "getPendingTasks s = filter (\<lambda>t. \<not> completed t) (tasks s)"

text \<open>
  \<^verbatim>\<open>find\<close> returns the first task with the id, and the assignments mutate that
  object where it sits in the array: \<open>assign_found\<close> replaces the first match.
  \<^const>\<open>None\<close> is the \<^verbatim>\<open>null\<close> returned for an unknown id.
\<close>

fun assign_found :: "('a \<Rightarrow> bool) \<Rightarrow> 'a \<Rightarrow> 'a list \<Rightarrow> 'a list" where
  "assign_found P y [] = []"
| "assign_found P y (x # xs) = (if P x then y # xs else x # assign_found P y xs)"

definition toggleTaskCompletion :: "int \<Rightarrow> string \<Rightarrow> TaskManager \<Rightarrow> task option \<times> TaskManager" where
  "toggleTaskCompletion i now s =
     (case List.find (\<lambda>t. id' t = i) (tasks s) of
        None \<Rightarrow> (None, s)
      | Some t \<Rightarrow>
          let c = \<not> completed t;
              t' = t\<lparr>completed := c, completedAt := (if c then Str now else Null)\<rparr>
          in (Some t', saveTasks (s\<lparr>tasks := assign_found (\<lambda>t. id' t = i) t' (tasks s)\<rparr>)))"

text \<open>\<^verbatim>\<open>findIndex\<close>, with \<^const>\<open>None\<close> for \<open>-1\<close>; \<^verbatim>\<open>splice(index, 1)\<close> removes that position.\<close>

fun findIndex :: "('a \<Rightarrow> bool) \<Rightarrow> 'a list \<Rightarrow> nat option" where
  "findIndex P [] = None"
| "findIndex P (x # xs) = (if P x then Some 0 else map_option Suc (findIndex P xs))"

definition deleteTask :: "int \<Rightarrow> TaskManager \<Rightarrow> task option \<times> TaskManager" where
  "deleteTask i s =
     (case findIndex (\<lambda>t. id' t = i) (tasks s) of
        None \<Rightarrow> (None, s)
      | Some k \<Rightarrow>
          (Some (tasks s ! k),
           saveTasks (s\<lparr>tasks := take k (tasks s) @ drop (Suc k) (tasks s)\<rparr>)))"

definition clearCompletedTasks :: "TaskManager \<Rightarrow> task list \<times> TaskManager" where
  "clearCompletedTasks s =
     (let completedTasks = getCompletedTasks s
      in (completedTasks, saveTasks (s\<lparr>tasks := filter (\<lambda>t. \<not> completed t) (tasks s)\<rparr>)))"

text \<open>The mutating calls a page can make, and the state each leaves behind.\<close>

datatype operation =
    AddTask string js js string
  | ToggleTaskCompletion int string
  | DeleteTask int
  | ClearCompletedTasks

fun exec :: "operation \<Rightarrow> TaskManager \<Rightarrow> TaskManager" where
  "exec (AddTask txt d p now) s = snd (addTask txt d p now s)"
| "exec (ToggleTaskCompletion i now) s = snd (toggleTaskCompletion i now s)"
| "exec (DeleteTask i) s = snd (deleteTask i s)"
| "exec ClearCompletedTasks s = snd (clearCompletedTasks s)"

text \<open>The states a session passes through, oldest first, and the last of them.\<close>

fun states :: "operation list \<Rightarrow> TaskManager \<Rightarrow> TaskManager list" where
  "states [] s = [s]"
| "states (x # xs) s = s # states xs (exec x s)"

definition run :: "operation list \<Rightarrow> TaskManager \<Rightarrow> TaskManager" where
  "run xs s = fold exec xs s"

text \<open>Every stored id is below the counter: what the constructor sets up.\<close>

definition ids_below_counter :: "TaskManager \<Rightarrow> bool" where
  "ids_below_counter s \<longleftrightarrow> (\<forall>t \<in> set (tasks s). id' t < nextId s)"

text \<open>The value under the key \<^verbatim>\<open>tasks\<close> is the serialization of the whole collection.\<close>

definition persisted :: "TaskManager \<Rightarrow> bool" where
  "persisted s \<longleftrightarrow>
     localStorage s ''tasks'' = Some (JSON_stringify (Arr (map js_of_task (tasks s))))"

section \<open>JSON.parse\<close>

text \<open>
  \<^verbatim>\<open>JSON.parse(text)\<close> on a string: the JSON grammar, then the value the text
  denotes. A text outside the grammar throws \<^verbatim>\<open>SyntaxError\<close>. A text inside the
  grammar whose value is not one of \<^typ>\<open>js\<close> (a number that is not an integer a double
  holds exactly, a string with a code unit above 255, an object with repeated or
  array-index keys) is \<open>Unmodelled\<close>: the embedding says nothing about it.
\<close>

datatype 'a outcome = Returns 'a | Throws error | Unmodelled

text \<open>Tokens; a number is kept as \<open>m \<times> 10\<^sup>e\<close>, a string as its code units.\<close>

datatype token =
    LBrace | RBrace | LBracket | RBracket | Comma | Colon
  | TString "nat list"
  | TNumber int int
  | TTrue | TFalse | TNull

datatype json =
    JNull
  | JBool bool
  | JNumber int int
  | JString "nat list"
  | JArray "json list"
  | JObject "(nat list \<times> json) list"

definition is_digit :: "char \<Rightarrow> bool" where
  "is_digit c \<longleftrightarrow> c \<in> set ''0123456789''"

definition digit_val :: "char \<Rightarrow> nat" where
  "digit_val c = of_char c - 48"

definition digits_val :: "string \<Rightarrow> nat" where
  "digits_val ds = fold (\<lambda>c n. 10 * n + digit_val c) ds 0"

definition hex_val :: "char \<Rightarrow> nat option" where
  "hex_val c =
     (if c \<in> set ''0123456789'' then Some (of_char c - 48)
      else if c \<in> set ''abcdef'' then Some (of_char c - 87)
      else if c \<in> set ''ABCDEF'' then Some (of_char c - 55)
      else None)"

definition hex4 :: "string \<Rightarrow> nat option" where
  "hex4 ds =
     (case map hex_val ds of
        [Some a, Some b, Some c, Some d] \<Rightarrow> Some (((a * 16 + b) * 16 + c) * 16 + d)
      | _ \<Rightarrow> None)"

definition simple_escape :: "char \<Rightarrow> nat option" where
  "simple_escape e =
     (if e = CHR 0x22 then Some 0x22
      else if e = CHR 0x5C then Some 0x5C
      else if e = CHR ''/'' then Some 0x2F
      else if e = CHR ''b'' then Some 0x08
      else if e = CHR ''f'' then Some 0x0C
      else if e = CHR ''n'' then Some 0x0A
      else if e = CHR ''r'' then Some 0x0D
      else if e = CHR ''t'' then Some 0x09
      else None)"

text \<open>
  A string after its opening quote: the code units, and how many characters were read
  up to and including the closing quote.
\<close>

fun lex_string :: "string \<Rightarrow> (nat list \<times> nat) option" where
  "lex_string [] = None"
| "lex_string (c # cs) =
     (if c = CHR 0x22 then Some ([], 1)
      else if c = CHR 0x5C then
        (case cs of
           [] \<Rightarrow> None
         | e # es \<Rightarrow>
             if e = CHR ''u'' then
               (case hex4 (take 4 es) of
                  None \<Rightarrow> None
                | Some u \<Rightarrow> map_option (\<lambda>(us, k). (u # us, k + 6)) (lex_string (drop 4 es)))
             else
               (case simple_escape e of
                  None \<Rightarrow> None
                | Some u \<Rightarrow> map_option (\<lambda>(us, k). (u # us, k + 2)) (lex_string es)))
      else if (of_char c :: nat) < 32 then None
      else map_option (\<lambda>(us, k). (of_char c # us, k + 1)) (lex_string cs))"

text \<open>
  A number: \<^verbatim>\<open>-?(0|[1-9][0-9]*)(\.[0-9]+)?([eE][+-]?[0-9]+)?\<close>, with the number of
  characters read.
\<close>

definition lex_number :: "string \<Rightarrow> ((int \<times> int) \<times> nat) option" where
  "lex_number s =
     (let neg = (take 1 s = ''-'');
          s1 = (if neg then drop 1 s else s);
          ds1 = takeWhile is_digit s1;
          s2 = dropWhile is_digit s1;
          has_frac = (take 1 s2 = ''.'');
          ds2 = (if has_frac then takeWhile is_digit (drop 1 s2) else []);
          s3 = (if has_frac then dropWhile is_digit (drop 1 s2) else s2);
          has_exp = (take 1 s3 = ''e'' \<or> take 1 s3 = ''E'');
          s4 = (if has_exp then drop 1 s3 else s3);
          eneg = (has_exp \<and> take 1 s4 = ''-'');
          s5 = (if has_exp \<and> (take 1 s4 = ''-'' \<or> take 1 s4 = ''+'') then drop 1 s4 else s4);
          ds3 = (if has_exp then takeWhile is_digit s5 else []);
          s6 = (if has_exp then dropWhile is_digit s5 else s5);
          m = int (digits_val (ds1 @ ds2));
          e = int (digits_val ds3)
      in if ds1 = [] \<or> (length ds1 > 1 \<and> hd ds1 = CHR ''0'') \<or> (has_frac \<and> ds2 = []) \<or>
            (has_exp \<and> ds3 = [])
         then None
         else Some ((if neg then - m else m, (if eneg then - e else e) - int (length ds2)),
                    length s - length s6))"

fun tokenize :: "string \<Rightarrow> token list option" where
  "tokenize [] = Some []"
| "tokenize (c # cs) =
     (if c = CHR 0x09 \<or> c = CHR 0x0A \<or> c = CHR 0x0D \<or> c = CHR 0x20 then tokenize cs
      else if c = CHR ''{'' then map_option (Cons LBrace) (tokenize cs)
      else if c = CHR ''}'' then map_option (Cons RBrace) (tokenize cs)
      else if c = CHR ''['' then map_option (Cons LBracket) (tokenize cs)
      else if c = CHR '']'' then map_option (Cons RBracket) (tokenize cs)
      else if c = CHR '','' then map_option (Cons Comma) (tokenize cs)
      else if c = CHR '':'' then map_option (Cons Colon) (tokenize cs)
      else if c = CHR 0x22 then
        (case lex_string cs of
           None \<Rightarrow> None
         | Some (us, k) \<Rightarrow> map_option (Cons (TString us)) (tokenize (drop k cs)))
      else if c = CHR ''-'' \<or> is_digit c then
        (case lex_number (c # cs) of
           None \<Rightarrow> None
         | Some ((m, e), k) \<Rightarrow> map_option (Cons (TNumber m e)) (tokenize (drop (k - 1) cs)))
      else if c = CHR ''t'' \<and> take 3 cs = ''rue'' then map_option (Cons TTrue) (tokenize (drop 3 cs))
      else if c = CHR ''f'' \<and> take 4 cs = ''alse'' then map_option (Cons TFalse) (tokenize (drop 4 cs))
      else if c = CHR ''n'' \<and> take 3 cs = ''ull'' then map_option (Cons TNull) (tokenize (drop 3 cs))
      else None)"

text \<open>
  The grammar over tokens, read left to right with a stack of the arrays and objects
  that are still open.
\<close>

datatype frame =
    ArrF "json list"
  | ObjF "(nat list \<times> json) list"
  | ObjKF "(nat list \<times> json) list" "nat list"

datatype expect = Value | FirstElem | FirstKey | NextKey | ColonSep | After json

fun scalar :: "token \<Rightarrow> json option" where
  "scalar (TString us) = Some (JString us)"
| "scalar (TNumber m e) = Some (JNumber m e)"
| "scalar TTrue = Some (JBool True)"
| "scalar TFalse = Some (JBool False)"
| "scalar TNull = Some JNull"
| "scalar _ = None"

fun open_value :: "token \<Rightarrow> frame list \<Rightarrow> (expect \<times> frame list) option" where
  "open_value LBracket st = Some (FirstElem, ArrF [] # st)"
| "open_value LBrace st = Some (FirstKey, ObjF [] # st)"
| "open_value tok st = map_option (\<lambda>v. (After v, st)) (scalar tok)"

fun parse_step :: "expect \<times> frame list \<Rightarrow> token \<Rightarrow> (expect \<times> frame list) option" where
  "parse_step (Value, st) tok = open_value tok st"
| "parse_step (FirstElem, st) tok =
     (case (tok, st) of
        (RBracket, ArrF [] # st') \<Rightarrow> Some (After (JArray []), st')
      | _ \<Rightarrow> open_value tok st)"
| "parse_step (FirstKey, st) tok =
     (case (tok, st) of
        (RBrace, ObjF [] # st') \<Rightarrow> Some (After (JObject []), st')
      | (TString k, ObjF ms # st') \<Rightarrow> Some (ColonSep, ObjKF ms k # st')
      | _ \<Rightarrow> None)"
| "parse_step (NextKey, st) tok =
     (case (tok, st) of
        (TString k, ObjF ms # st') \<Rightarrow> Some (ColonSep, ObjKF ms k # st')
      | _ \<Rightarrow> None)"
| "parse_step (ColonSep, st) tok = (if tok = Colon then Some (Value, st) else None)"
| "parse_step (After v, st) tok =
     (case (tok, st) of
        (Comma, ArrF vs # st') \<Rightarrow> Some (Value, ArrF (v # vs) # st')
      | (RBracket, ArrF vs # st') \<Rightarrow> Some (After (JArray (rev (v # vs))), st')
      | (Comma, ObjKF ms k # st') \<Rightarrow> Some (NextKey, ObjF ((k, v) # ms) # st')
      | (RBrace, ObjKF ms k # st') \<Rightarrow> Some (After (JObject (rev ((k, v) # ms))), st')
      | _ \<Rightarrow> None)"

fun parse_steps :: "expect \<times> frame list \<Rightarrow> token list \<Rightarrow> (expect \<times> frame list) option" where
  "parse_steps c [] = Some c"
| "parse_steps c (tok # toks) = (case parse_step c tok of None \<Rightarrow> None | Some c' \<Rightarrow> parse_steps c' toks)"

definition parse_tokens :: "token list \<Rightarrow> json option" where
  "parse_tokens toks =
     (case parse_steps (Value, []) toks of
        Some (After v, []) \<Rightarrow> Some v
      | _ \<Rightarrow> None)"

definition parse_json :: "string \<Rightarrow> json option" where
  "parse_json s = (case tokenize s of None \<Rightarrow> None | Some toks \<Rightarrow> parse_tokens toks)"

text \<open>
  The value a JSON text denotes, where the value is one of \<^typ>\<open>js\<close>: an integer that
  a double holds exactly, a string of code units below 256, an object whose keys are
  distinct and none an array index (JavaScript would reorder those).
\<close>

definition those_list :: "'a option list \<Rightarrow> 'a list option" where
  "those_list xs = (if None \<in> set xs then None else Some (map the xs))"

definition number_value :: "int \<Rightarrow> int \<Rightarrow> int option" where
  "number_value m e =
     (let v = (if e \<ge> 0 then Some (m * 10 ^ nat e)
               else if m mod 10 ^ nat (- e) = 0 then Some (m div 10 ^ nat (- e)) else None)
      in case v of None \<Rightarrow> None
         | Some n \<Rightarrow> if \<bar>n\<bar> \<le> 2 ^ 53 then Some n else None)"

definition string_value :: "nat list \<Rightarrow> string option" where
  "string_value us = (if list_all (\<lambda>u. u < 256) us then Some (map char_of us) else None)"

definition is_array_index :: "string \<Rightarrow> bool" where
  "is_array_index k \<longleftrightarrow>
     k \<noteq> [] \<and> list_all is_digit k \<and> (hd k = CHR ''0'' \<longrightarrow> length k = 1) \<and>
     digits_val k < 2 ^ 32 - 1"

fun js_of_json :: "json \<Rightarrow> js option" where
  "js_of_json JNull = Some Null"
| "js_of_json (JBool b) = Some (Bool b)"
| "js_of_json (JNumber m e) = map_option Num (number_value m e)"
| "js_of_json (JString us) = map_option Str (string_value us)"
| "js_of_json (JArray vs) = map_option Arr (those_list (map js_of_json vs))"
| "js_of_json (JObject ms) =
     (case those_list (map (\<lambda>(k, v). case (string_value k, js_of_json v) of
                                 (Some k', Some v') \<Rightarrow> Some (k', v') | _ \<Rightarrow> None) ms) of
        None \<Rightarrow> None
      | Some ps \<Rightarrow>
          if distinct (map fst ps) \<and> \<not> list_ex is_array_index (map fst ps) then Some (Obj ps)
          else None)"

definition JSON_parse :: "string \<Rightarrow> js outcome" where
  "JSON_parse s =
     (case parse_json s of
        None \<Rightarrow> Throws SyntaxError
      | Some j \<Rightarrow> (case js_of_json j of None \<Rightarrow> Unmodelled | Some v \<Rightarrow> Returns v))"

section \<open>Construction\<close>

text \<open>
  \<^verbatim>\<open>loadTasks\<close>: \<^verbatim>\<open>tasks ? JSON.parse(tasks) : []\<close>, where \<^verbatim>\<open>null\<close> and the
  empty string are falsy. Nothing catches what \<^verbatim>\<open>JSON.parse\<close> throws.
\<close>

definition loadTasks :: "(string \<rightharpoonup> string) \<Rightarrow> js outcome" where
  "loadTasks ls =
     (case ls ''tasks'' of
        None \<Rightarrow> Returns (Arr [])
      | Some str \<Rightarrow> if str = [] then Returns (Arr []) else JSON_parse str)"

text \<open>
  The constructor stores the loaded value and computes the counter from it. The store's
  operations are modelled on arrays of task objects as \<^verbatim>\<open>saveTasks\<close> writes them: a
  loaded object is the task \<open>t\<close> when its properties are those of \<^const>\<open>js_of_task\<close>
  of \<open>t\<close> that are present, in that order. Any other loaded value is \<open>Unmodelled\<close>.
\<close>

definition own_properties :: "js \<Rightarrow> js" where
  "own_properties v = (case v of Obj ps \<Rightarrow> Obj (filter (\<lambda>(k, x). x \<noteq> Undefined) ps) | _ \<Rightarrow> v)"

definition task_of_js :: "js \<Rightarrow> task option" where
  "task_of_js v =
     (case v of
        Obj ps \<Rightarrow>
          (let t = \<lparr>id' = (case map_of ps ''id'' of Some (Num i) \<Rightarrow> i | _ \<Rightarrow> 0),
                    text' = (case map_of ps ''text'' of Some (Str x) \<Rightarrow> x | _ \<Rightarrow> []),
                    completed = (map_of ps ''completed'' = Some (Bool True)),
                    date = (case map_of ps ''date'' of Some x \<Rightarrow> x | None \<Rightarrow> Undefined),
                    priority = (case map_of ps ''priority'' of Some x \<Rightarrow> x | None \<Rightarrow> Undefined),
                    createdAt = (case map_of ps ''createdAt'' of Some (Str x) \<Rightarrow> x | _ \<Rightarrow> []),
                    completedAt = (case map_of ps ''completedAt'' of Some x \<Rightarrow> x | None \<Rightarrow> Undefined)\<rparr>
           in if own_properties (js_of_task t) = v then Some t else None)
      | _ \<Rightarrow> None)"

fun tasks_of_js :: "js \<Rightarrow> task list option" where
  "tasks_of_js (Arr vs) = those_list (map task_of_js vs)"
| "tasks_of_js _ = None"

definition new_TaskManager :: "(string \<rightharpoonup> string) \<Rightarrow> TaskManager outcome" where
  "new_TaskManager ls =
     (case loadTasks ls of
        Throws e \<Rightarrow> Throws e
      | Unmodelled \<Rightarrow> Unmodelled
      | Returns v \<Rightarrow>
          (case tasks_of_js v of
             None \<Rightarrow> Unmodelled
           | Some ts \<Rightarrow> Returns \<lparr>tasks = ts, nextId = getNextId ts, localStorage = ls\<rparr>))"

section \<open>Statistics\<close>

text \<open>
  \<^verbatim>\<open>getStats\<close> divides and multiplies, so here a number is the rational a double
  holds and each operation rounds its exact result to the nearest double, ties to the
  even significand: \<open>to_double\<close>, with 53 significant bits above \<open>2 powi - 1022\<close> and the
  fixed spacing of the subnormal numbers below (overflow is not modelled; the values here
  stay within 0 and 100). \<open>ilog2 x\<close> is the exponent \<open>e\<close> with \<open>2 powi e \<le> x < 2 powi (e + 1)\<close>.
  \<^verbatim>\<open>Math.round\<close> is the nearest integer, the larger one at a tie.
\<close>

definition round_half_even :: "rat \<Rightarrow> int" where
  "round_half_even y =
     (let n = \<lfloor>y\<rfloor>; d = y - of_int n
      in if d < 1 / 2 then n else if 1 / 2 < d then n + 1 else if even n then n else n + 1)"

definition ilog2 :: "rat \<Rightarrow> int" where
  "ilog2 x =
     (let (a, b) = quotient_of x; d = bitlen a - bitlen b
      in if 2 powi d \<le> x then d else d - 1)"

definition to_double :: "rat \<Rightarrow> rat" where
  "to_double x =
     (if x = 0 then 0
      else let u = 2 powi (max (ilog2 \<bar>x\<bar>) (- 1022) - 52)
           in of_int (round_half_even (x / u)) * u)"

definition Math_round :: "rat \<Rightarrow> int" where
  "Math_round x = \<lfloor>x + 1 / 2\<rfloor>"

record stats =
  total :: int
  completed' :: int
  pending :: int
  completionRate :: int

definition getStats :: "TaskManager \<Rightarrow> stats" where
  "getStats s =
     (let n = int (length (tasks s));
          c = int (length (filter (\<lambda>t. completed t) (tasks s)));
          p = n - c
      in \<lparr>total = n, completed' = c, pending = p,
          completionRate =
            (if n > 0 then Math_round (to_double (to_double (of_int c / of_int n) * 100)) else 0)\<rparr>)"

section \<open>Properties of the store\<close>

subsection \<open>Auxiliary facts\<close>

lemma find_None_iff_not_mem: "List.find (\<lambda>t. f t = i) xs = None \<longleftrightarrow> i \<notin> f ` set xs"
  by (induction xs) auto

lemma findIndex_None_iff_not_mem: "findIndex (\<lambda>t. f t = i) xs = None \<longleftrightarrow> i \<notin> f ` set xs"
  by (induction xs) auto

lemma saveTasks_tasks [simp]: "tasks (saveTasks s) = tasks s"
  by (simp add: saveTasks_def)

lemma saveTasks_nextId [simp]: "nextId (saveTasks s) = nextId s"
  by (simp add: saveTasks_def)

lemma find_first_distinct:
  "distinct (map f xs) \<Longrightarrow> t \<in> set xs \<Longrightarrow> List.find (\<lambda>u. f u = f t) xs = Some t"
proof (induction xs)
  case Nil
  then show ?case by simp
next
  case (Cons x xs)
  show ?case
  proof (cases "f x = f t")
    case True
    with Cons.prems have "x = t" by (auto simp: image_iff)
    then show ?thesis by simp
  next
    case False
    with Cons show ?thesis by auto
  qed
qed

lemma map_if_absent: "k \<notin> f ` set xs \<Longrightarrow> map (\<lambda>u. if f u = k then y else u) xs = xs"
  by (induction xs) auto

lemma assign_found_distinct:
  "distinct (map f xs) \<Longrightarrow> t \<in> set xs \<Longrightarrow>
     assign_found (\<lambda>u. f u = f t) y xs = map (\<lambda>u. if f u = f t then y else u) xs"
proof (induction xs)
  case Nil
  then show ?case by simp
next
  case (Cons x xs)
  show ?case
  proof (cases "f x = f t")
    case True
    with Cons.prems have "f t \<notin> f ` set xs" by (auto simp: image_iff)
    then show ?thesis using True by (simp add: map_if_absent)
  next
    case False
    with Cons show ?thesis by auto
  qed
qed

lemma toggle_distinct:
  assumes "distinct (map id' (tasks s))" and "t \<in> set (tasks s)"
  shows "toggleTaskCompletion (id' t) now s =
           (Some (t\<lparr>completed := \<not> completed t, completedAt := (if \<not> completed t then Str now else Null)\<rparr>),
            saveTasks (s\<lparr>tasks := map (\<lambda>u. if id' u = id' t
                 then t\<lparr>completed := \<not> completed t, completedAt := (if \<not> completed t then Str now else Null)\<rparr>
                 else u) (tasks s)\<rparr>))"
  using find_first_distinct [OF assms] assign_found_distinct [OF assms]
  by (simp add: toggleTaskCompletion_def Let_def)

lemma set_assign_found: "set (assign_found P y xs) \<subseteq> insert y (set xs)"
  by (induction xs) auto

lemma find_SomeD: "List.find P xs = Some x \<Longrightarrow> x \<in> set xs \<and> P x"
  by (induction xs) (auto split: if_splits)

lemma exec_task_origin:
  assumes "u' \<in> set (tasks (exec x s))"
  shows "u' \<in> set (tasks s) \<or>
         (\<exists>txt d p now. x = AddTask txt d p now \<and> \<not> completed u' \<and> completedAt u' = Undefined) \<or>
         (\<exists>i now u. x = ToggleTaskCompletion i now \<and> u \<in> set (tasks s) \<and> id' u = i \<and>
            u' = u\<lparr>completed := \<not> completed u,
                   completedAt := (if \<not> completed u then Str now else Null)\<rparr>)"
proof (cases x)
  case (AddTask tx d p now)
  with assms show ?thesis
    by (auto simp: addTask_def Let_def split: if_splits)
next
  case (ToggleTaskCompletion i now)
  show ?thesis
  proof (cases "List.find (\<lambda>t. id' t = i) (tasks s)")
    case None
    with assms ToggleTaskCompletion show ?thesis
      by (simp add: toggleTaskCompletion_def)
  next
    case (Some t)
    then have t: "t \<in> set (tasks s)" "id' t = i"
      using find_SomeD [of "\<lambda>t. id' t = i" "tasks s" t] by simp_all
    from assms ToggleTaskCompletion Some
    have "u' \<in> set (assign_found (\<lambda>t. id' t = i)
             (t\<lparr>completed := \<not> completed t, completedAt := (if \<not> completed t then Str now else Null)\<rparr>)
             (tasks s))"
      by (simp add: toggleTaskCompletion_def Let_def)
    then have "u' = t\<lparr>completed := \<not> completed t, completedAt := (if \<not> completed t then Str now else Null)\<rparr>
               \<or> u' \<in> set (tasks s)"
      using set_assign_found by fastforce
    with t ToggleTaskCompletion show ?thesis by blast
  qed
next
  case (DeleteTask i)
  with assms show ?thesis
    by (auto simp: deleteTask_def split: option.splits dest: in_set_takeD in_set_dropD)
next
  case ClearCompletedTasks
  with assms show ?thesis
    by (auto simp: clearCompletedTasks_def Let_def)
qed

lemma map_key_replace: "f y = k \<Longrightarrow> map f (map (\<lambda>u. if f u = k then y else u) xs) = map f xs"
  by (induction xs) auto

lemma map_replace_twice:
  "f y = k \<Longrightarrow> map (\<lambda>u. if f u = k then z else u) (map (\<lambda>u. if f u = k then y else u) xs)
     = map (\<lambda>u. if f u = k then z else u) xs"
  by (induction xs) auto


subsection \<open>Adding a task\<close>

text \<open>
  C1. \<^verbatim>\<open>addTask\<close> returns a task exactly when the trimmed text is non-empty. The task
  it returns is appended to the collection, carries the trimmed text, is pending, and
  has an id no stored task has (the counter is above every stored id, as the constructor
  leaves it). When the trimmed text is empty the call throws
  \<^verbatim>\<open>Error('Task text cannot be empty')\<close> and the whole state is as before.
\<close>

theorem addTask_succeeds_iff_trimmed_nonempty:
  assumes "ids_below_counter s"
  shows "((\<exists>t s'. addTask txt d p now s = (Inr t, s')) \<longleftrightarrow> trim txt \<noteq> []) \<and>
         (\<forall>t s'. addTask txt d p now s = (Inr t, s') \<longrightarrow>
            tasks s' = tasks s @ [t] \<and> text' t = trim txt \<and> completed t = False \<and>
            id' t \<notin> id' ` set (tasks s)) \<and>
         (trim txt = [] \<longrightarrow> addTask txt d p now s = (Inl (Error ''Task text cannot be empty''), s))"
  using assms by (auto simp: addTask_def Let_def ids_below_counter_def)

theorem addTask_succeeds_iff_trimmed_nonempty_witness:
  "ids_below_counter
     \<lparr>tasks = [\<lparr>id' = 1, text' = ''Buy milk'', completed = False, date = Null,
                 priority = Str ''medium'', createdAt = ''2024-01-01T09:00:00.000Z'',
                 completedAt = Undefined\<rparr>],
      nextId = 2, localStorage = Map.empty\<rparr> \<and>
   trim ''  Ship release '' = ''Ship release'' \<and>
   (\<exists>t s'. addTask ''  Ship release '' (Str ''2024-01-01'') (Str ''high'') ''2024-01-01T09:05:00.000Z''
       \<lparr>tasks = [\<lparr>id' = 1, text' = ''Buy milk'', completed = False, date = Null,
                   priority = Str ''medium'', createdAt = ''2024-01-01T09:00:00.000Z'',
                   completedAt = Undefined\<rparr>],
        nextId = 2, localStorage = Map.empty\<rparr> = (Inr t, s')) \<and>
   trim ''   '' = [] \<and>
   fst (addTask ''   '' Undefined Undefined ''2024-01-01T09:05:00.000Z''
       \<lparr>tasks = [\<lparr>id' = 1, text' = ''Buy milk'', completed = False, date = Null,
                   priority = Str ''medium'', createdAt = ''2024-01-01T09:00:00.000Z'',
                   completedAt = Undefined\<rparr>],
        nextId = 2, localStorage = Map.empty\<rparr>) = Inl (Error ''Task text cannot be empty'')"
proof -
  let ?s = "\<lparr>tasks = [\<lparr>id' = 1, text' = ''Buy milk'', completed = False, date = Null,
                 priority = Str ''medium'', createdAt = ''2024-01-01T09:00:00.000Z'',
                 completedAt = Undefined\<rparr>],
      nextId = 2, localStorage = Map.empty\<rparr>"
  have h: "ids_below_counter ?s"
    by (simp add: ids_below_counter_def)
  have t1: "trim ''  Ship release '' = ''Ship release''"
    by (simp add: trim_def isWhiteSpace_def)
  have t2: "trim ''   '' = []"
    by (simp add: trim_def isWhiteSpace_def)
  have a: "\<exists>t s'. addTask ''  Ship release '' (Str ''2024-01-01'') (Str ''high'')
             ''2024-01-01T09:05:00.000Z'' ?s = (Inr t, s')"
    using addTask_succeeds_iff_trimmed_nonempty [OF h, THEN conjunct1,
        of "''  Ship release ''" "Str ''2024-01-01''" "Str ''high''" "''2024-01-01T09:05:00.000Z''"]
    by (simp only: t1) simp
  have b: "fst (addTask ''   '' Undefined Undefined ''2024-01-01T09:05:00.000Z'' ?s) =
             Inl (Error ''Task text cannot be empty'')"
    using addTask_succeeds_iff_trimmed_nonempty [OF h, THEN conjunct2, THEN conjunct2,
        of "''   ''" Undefined Undefined "''2024-01-01T09:05:00.000Z''"] t2
    by simp
  show ?thesis
    using h t1 a t2 b by blast
qed

text \<open>
  C8, as stated, fails: \<^verbatim>\<open>addTask\<close> stores the priority argument as passed, so a call
  with the unrecognized value \<^verbatim>\<open>'urgent'\<close> stores \<^verbatim>\<open>'urgent'\<close>.
\<close>

theorem addTask_unrecognized_priority_counterexample:
  "fst (addTask ''Buy milk'' Undefined (Str ''urgent'') ''2024-01-01T09:00:00.000Z''
      \<lparr>tasks = [], nextId = 1, localStorage = Map.empty\<rparr>) =
    Inr \<lparr>id' = 1, text' = ''Buy milk'', completed = False, date = Null, priority = Str ''urgent'',
         createdAt = ''2024-01-01T09:00:00.000Z'', completedAt = Undefined\<rparr> \<and>
   Str ''urgent'' \<noteq> Str ''medium''"
  by (simp add: addTask_def trim_def isWhiteSpace_def default_arg_def Let_def)

text \<open>
  C8, amended. The priority of the created task is \<^verbatim>\<open>'medium'\<close> when the priority
  argument is absent (\<^verbatim>\<open>undefined\<close>), and otherwise it is the argument exactly as
  passed: \<^verbatim>\<open>addTask\<close> does not check it against high, medium and low.
\<close>

theorem addTask_priority_as_passed:
  assumes "addTask txt d p now s = (Inr t, s')"
  shows "priority t = (if p = Undefined then Str ''medium'' else p)"
  using assms by (auto simp: addTask_def Let_def default_arg_def split: if_splits)

theorem addTask_priority_as_passed_witness:
  "addTask ''Buy milk'' Undefined Undefined ''2024-01-01T09:00:00.000Z''
      \<lparr>tasks = [], nextId = 1, localStorage = Map.empty\<rparr> =
     (Inr \<lparr>id' = 1, text' = ''Buy milk'', completed = False, date = Null, priority = Str ''medium'',
           createdAt = ''2024-01-01T09:00:00.000Z'', completedAt = Undefined\<rparr>,
      saveTasks \<lparr>tasks = [\<lparr>id' = 1, text' = ''Buy milk'', completed = False, date = Null,
           priority = Str ''medium'', createdAt = ''2024-01-01T09:00:00.000Z'', completedAt = Undefined\<rparr>],
         nextId = 2, localStorage = Map.empty\<rparr>) \<and>
   priority \<lparr>id' = 1, text' = ''Buy milk'', completed = False, date = Null, priority = Str ''medium'',
           createdAt = ''2024-01-01T09:00:00.000Z'', completedAt = Undefined\<rparr> = Str ''medium''"
proof -
  have run: "addTask ''Buy milk'' Undefined Undefined ''2024-01-01T09:00:00.000Z''
      \<lparr>tasks = [], nextId = 1, localStorage = Map.empty\<rparr> =
     (Inr \<lparr>id' = 1, text' = ''Buy milk'', completed = False, date = Null, priority = Str ''medium'',
           createdAt = ''2024-01-01T09:00:00.000Z'', completedAt = Undefined\<rparr>,
      saveTasks \<lparr>tasks = [\<lparr>id' = 1, text' = ''Buy milk'', completed = False, date = Null,
           priority = Str ''medium'', createdAt = ''2024-01-01T09:00:00.000Z'', completedAt = Undefined\<rparr>],
         nextId = 2, localStorage = Map.empty\<rparr>)"
    by (simp add: addTask_def trim_def isWhiteSpace_def default_arg_def Let_def)
  show ?thesis
    using run addTask_priority_as_passed [OF run] by simp
qed

subsection \<open>Unknown ids\<close>

text \<open>
  C6. For an id that no stored task has, \<^verbatim>\<open>toggleTaskCompletion\<close> and
  \<^verbatim>\<open>deleteTask\<close> return \<^verbatim>\<open>null\<close> (no exception) and leave the whole state,
  so the collection too, as it was.
\<close>

theorem unknown_id_returns_null_unchanged:
  assumes "i \<notin> id' ` set (tasks s)"
  shows "toggleTaskCompletion i now s = (None, s) \<and> deleteTask i s = (None, s)"
proof -
  have "List.find (\<lambda>t. id' t = i) (tasks s) = None"
    using assms by (simp add: find_None_iff_not_mem)
  moreover have "findIndex (\<lambda>t. id' t = i) (tasks s) = None"
    using assms by (simp add: findIndex_None_iff_not_mem)
  ultimately show ?thesis
    by (simp add: toggleTaskCompletion_def deleteTask_def)
qed

theorem unknown_id_returns_null_unchanged_witness:
  "(7::int) \<notin> id' ` set (tasks
      \<lparr>tasks = [\<lparr>id' = 1, text' = ''Buy milk'', completed = False, date = Null,
                  priority = Str ''medium'', createdAt = ''2024-01-01T09:00:00.000Z'',
                  completedAt = Undefined\<rparr>],
       nextId = 2, localStorage = Map.empty\<rparr>) \<and>
   fst (toggleTaskCompletion 7 ''2024-01-02T10:00:00.000Z''
      \<lparr>tasks = [\<lparr>id' = 1, text' = ''Buy milk'', completed = False, date = Null,
                  priority = Str ''medium'', createdAt = ''2024-01-01T09:00:00.000Z'',
                  completedAt = Undefined\<rparr>],
       nextId = 2, localStorage = Map.empty\<rparr>) = None \<and>
   fst (deleteTask 7
      \<lparr>tasks = [\<lparr>id' = 1, text' = ''Buy milk'', completed = False, date = Null,
                  priority = Str ''medium'', createdAt = ''2024-01-01T09:00:00.000Z'',
                  completedAt = Undefined\<rparr>],
       nextId = 2, localStorage = Map.empty\<rparr>) = None"
  using unknown_id_returns_null_unchanged
    [of 7 "\<lparr>tasks = [\<lparr>id' = 1, text' = ''Buy milk'', completed = False, date = Null,
                  priority = Str ''medium'', createdAt = ''2024-01-01T09:00:00.000Z'',
                  completedAt = Undefined\<rparr>],
       nextId = 2, localStorage = Map.empty\<rparr>" "''2024-01-02T10:00:00.000Z''"]
  by simp

subsection \<open>Clearing completed tasks\<close>

text \<open>
  C4. \<^verbatim>\<open>clearCompletedTasks\<close> returns the tasks that were completed before the call,
  in their stored order; afterwards \<^verbatim>\<open>getCompletedTasks\<close> is empty and
  \<^verbatim>\<open>getPendingTasks\<close> is the sequence it was.
\<close>

theorem clearCompletedTasks_returns_completed_keeps_pending:
  "fst (clearCompletedTasks s) = filter completed (tasks s) \<and>
   getCompletedTasks (snd (clearCompletedTasks s)) = [] \<and>
   getPendingTasks (snd (clearCompletedTasks s)) = getPendingTasks s"
  by (simp add: clearCompletedTasks_def getCompletedTasks_def getPendingTasks_def Let_def)

subsection \<open>Toggling completion\<close>

lemma toggle_pending_twice:
  assumes "distinct (map id' (tasks s))" and "t \<in> set (tasks s)" and "\<not> completed t"
  shows "\<exists>s1 s2.
     toggleTaskCompletion (id' t) now s = (Some (t\<lparr>completed := True, completedAt := Str now\<rparr>), s1) \<and>
     tasks s1 = map (\<lambda>u. if id' u = id' t then t\<lparr>completed := True, completedAt := Str now\<rparr> else u) (tasks s) \<and>
     toggleTaskCompletion (id' t) now' s1 = (Some (t\<lparr>completed := False, completedAt := Null\<rparr>), s2) \<and>
     tasks s2 = map (\<lambda>u. if id' u = id' t then t\<lparr>completed := False, completedAt := Null\<rparr> else u) (tasks s)"
proof -
  let ?t1 = "t\<lparr>completed := True, completedAt := Str now\<rparr>"
  let ?t2 = "t\<lparr>completed := False, completedAt := Null\<rparr>"
  let ?s1 = "saveTasks (s\<lparr>tasks := map (\<lambda>u. if id' u = id' t then ?t1 else u) (tasks s)\<rparr>)"
  have first: "toggleTaskCompletion (id' t) now s = (Some ?t1, ?s1)"
    using toggle_distinct [OF assms(1,2), of now] assms(3) by (simp cong: if_cong)
  have ids: "map id' (tasks ?s1) = map id' (tasks s)"
    using map_key_replace [of id' ?t1 "id' t" "tasks s"] by simp
  have d1: "distinct (map id' (tasks ?s1))"
    using assms(1) by (simp only: ids)
  have m1: "?t1 \<in> set (tasks ?s1)"
    using assms(2) by (auto simp: image_iff)
  have X: "?t1\<lparr>completed := \<not> completed ?t1,
               completedAt := (if \<not> completed ?t1 then Str now' else Null)\<rparr> = ?t2"
    by simp
  have idt: "id' ?t1 = id' t"
    by simp
  have ts1: "tasks ?s1 = map (\<lambda>u. if id' u = id' t then ?t1 else u) (tasks s)"
    by simp
  have "toggleTaskCompletion (id' t) now' ?s1 =
          (Some ?t2, saveTasks (?s1\<lparr>tasks := map (\<lambda>u. if id' u = id' t then ?t2 else u) (tasks ?s1)\<rparr>))"
    using toggle_distinct [OF d1 m1, of now'] unfolding X idt .
  then have second: "toggleTaskCompletion (id' t) now' ?s1 =
          (Some ?t2, saveTasks (?s1\<lparr>tasks := map (\<lambda>u. if id' u = id' t then ?t2 else u) (tasks s)\<rparr>))"
    unfolding ts1 using map_replace_twice [of id' ?t1 "id' t" ?t2 "tasks s"] idt by (simp only:)
  show ?thesis
    using first second by simp
qed

text \<open>
  C3. In a store whose ids are unique (the data model's invariant), toggling a pending
  task makes it completed with \<^verbatim>\<open>completedAt\<close> set to the timestamp of the call, in the
  returned task and in the collection; toggling it again makes it pending with
  \<^verbatim>\<open>completedAt\<close> \<^verbatim>\<open>null\<close>; every other field and every other task stay as they
  were. No other transition exists: after any operation, a stored task is a task stored
  before, unchanged, or the pending task \<^verbatim>\<open>addTask\<close> has just created, or the task
  \<^verbatim>\<open>toggleTaskCompletion\<close> has just flipped.
\<close>

theorem toggle_completes_then_restores:
  assumes "distinct (map id' (tasks s))" and "t \<in> set (tasks s)" and "\<not> completed t"
  shows "(\<exists>s1 s2.
     toggleTaskCompletion (id' t) now s = (Some (t\<lparr>completed := True, completedAt := Str now\<rparr>), s1) \<and>
     tasks s1 = map (\<lambda>u. if id' u = id' t then t\<lparr>completed := True, completedAt := Str now\<rparr> else u) (tasks s) \<and>
     toggleTaskCompletion (id' t) now' s1 = (Some (t\<lparr>completed := False, completedAt := Null\<rparr>), s2) \<and>
     tasks s2 = map (\<lambda>u. if id' u = id' t then t\<lparr>completed := False, completedAt := Null\<rparr> else u) (tasks s)) \<and>
   (\<forall>x s0 u'. u' \<in> set (tasks (exec x s0)) \<longrightarrow>
      u' \<in> set (tasks s0) \<or>
      (\<exists>tx d p clock. x = AddTask tx d p clock \<and> \<not> completed u' \<and> completedAt u' = Undefined) \<or>
      (\<exists>i clock u. x = ToggleTaskCompletion i clock \<and> u \<in> set (tasks s0) \<and> id' u = i \<and>
         u' = u\<lparr>completed := \<not> completed u,
                completedAt := (if \<not> completed u then Str clock else Null)\<rparr>))"
proof (rule conjI)
  show "\<exists>s1 s2.
     toggleTaskCompletion (id' t) now s = (Some (t\<lparr>completed := True, completedAt := Str now\<rparr>), s1) \<and>
     tasks s1 = map (\<lambda>u. if id' u = id' t then t\<lparr>completed := True, completedAt := Str now\<rparr> else u) (tasks s) \<and>
     toggleTaskCompletion (id' t) now' s1 = (Some (t\<lparr>completed := False, completedAt := Null\<rparr>), s2) \<and>
     tasks s2 = map (\<lambda>u. if id' u = id' t then t\<lparr>completed := False, completedAt := Null\<rparr> else u) (tasks s)"
    by (rule toggle_pending_twice [OF assms])
next
  show "\<forall>x s0 u'. u' \<in> set (tasks (exec x s0)) \<longrightarrow>
      u' \<in> set (tasks s0) \<or>
      (\<exists>tx d p clock. x = AddTask tx d p clock \<and> \<not> completed u' \<and> completedAt u' = Undefined) \<or>
      (\<exists>i clock u. x = ToggleTaskCompletion i clock \<and> u \<in> set (tasks s0) \<and> id' u = i \<and>
         u' = u\<lparr>completed := \<not> completed u,
                completedAt := (if \<not> completed u then Str clock else Null)\<rparr>)"
    using exec_task_origin by blast
qed

theorem toggle_completes_then_restores_witness:
  "distinct (map id' (tasks
     \<lparr>tasks = [\<lparr>id' = 1, text' = ''Buy milk'', completed = False, date = Null,
                 priority = Str ''medium'', createdAt = ''2024-01-01T09:00:00.000Z'',
                 completedAt = Undefined\<rparr>,
               \<lparr>id' = 2, text' = ''Ship release'', completed = False, date = Str ''2024-01-01'',
                 priority = Str ''high'', createdAt = ''2024-01-01T09:05:00.000Z'',
                 completedAt = Undefined\<rparr>],
      nextId = 3, localStorage = Map.empty\<rparr>)) \<and>
   fst (toggleTaskCompletion 1 ''2024-01-02T10:00:00.000Z''
     \<lparr>tasks = [\<lparr>id' = 1, text' = ''Buy milk'', completed = False, date = Null,
                 priority = Str ''medium'', createdAt = ''2024-01-01T09:00:00.000Z'',
                 completedAt = Undefined\<rparr>,
               \<lparr>id' = 2, text' = ''Ship release'', completed = False, date = Str ''2024-01-01'',
                 priority = Str ''high'', createdAt = ''2024-01-01T09:05:00.000Z'',
                 completedAt = Undefined\<rparr>],
      nextId = 3, localStorage = Map.empty\<rparr>) =
     Some \<lparr>id' = 1, text' = ''Buy milk'', completed = True, date = Null,
            priority = Str ''medium'', createdAt = ''2024-01-01T09:00:00.000Z'',
            completedAt = Str ''2024-01-02T10:00:00.000Z''\<rparr> \<and>
   fst (toggleTaskCompletion 1 ''2024-01-03T11:00:00.000Z''
     (snd (toggleTaskCompletion 1 ''2024-01-02T10:00:00.000Z''
     \<lparr>tasks = [\<lparr>id' = 1, text' = ''Buy milk'', completed = False, date = Null,
                 priority = Str ''medium'', createdAt = ''2024-01-01T09:00:00.000Z'',
                 completedAt = Undefined\<rparr>,
               \<lparr>id' = 2, text' = ''Ship release'', completed = False, date = Str ''2024-01-01'',
                 priority = Str ''high'', createdAt = ''2024-01-01T09:05:00.000Z'',
                 completedAt = Undefined\<rparr>],
      nextId = 3, localStorage = Map.empty\<rparr>))) =
     Some \<lparr>id' = 1, text' = ''Buy milk'', completed = False, date = Null,
            priority = Str ''medium'', createdAt = ''2024-01-01T09:00:00.000Z'',
            completedAt = Null\<rparr>"
proof -
  let ?t = "\<lparr>id' = 1, text' = ''Buy milk'', completed = False, date = Null,
                 priority = Str ''medium'', createdAt = ''2024-01-01T09:00:00.000Z'',
                 completedAt = Undefined\<rparr>"
  let ?s = "\<lparr>tasks = [?t,
               \<lparr>id' = 2, text' = ''Ship release'', completed = False, date = Str ''2024-01-01'',
                 priority = Str ''high'', createdAt = ''2024-01-01T09:05:00.000Z'',
                 completedAt = Undefined\<rparr>],
      nextId = 3, localStorage = Map.empty\<rparr>"
  have d: "distinct (map id' (tasks ?s))"
    by simp
  have m: "?t \<in> set (tasks ?s)"
    by simp
  have p: "\<not> completed ?t"
    by simp
  obtain s1 s2 where
    one: "toggleTaskCompletion (id' ?t) ''2024-01-02T10:00:00.000Z'' ?s =
            (Some (?t\<lparr>completed := True, completedAt := Str ''2024-01-02T10:00:00.000Z''\<rparr>), s1)" and
    two: "toggleTaskCompletion (id' ?t) ''2024-01-03T11:00:00.000Z'' s1 =
            (Some (?t\<lparr>completed := False, completedAt := Null\<rparr>), s2)"
    using toggle_completes_then_restores [OF d m p, THEN conjunct1,
        of "''2024-01-02T10:00:00.000Z''" "''2024-01-03T11:00:00.000Z''"]
    by blast
  have idt: "id' ?t = 1"
    by simp
  from one have a: "fst (toggleTaskCompletion 1 ''2024-01-02T10:00:00.000Z'' ?s) =
      Some (?t\<lparr>completed := True, completedAt := Str ''2024-01-02T10:00:00.000Z''\<rparr>)"
    and s1: "snd (toggleTaskCompletion 1 ''2024-01-02T10:00:00.000Z'' ?s) = s1"
    unfolding idt by simp_all
  from two have b: "fst (toggleTaskCompletion 1 ''2024-01-03T11:00:00.000Z''
        (snd (toggleTaskCompletion 1 ''2024-01-02T10:00:00.000Z'' ?s))) =
      Some (?t\<lparr>completed := False, completedAt := Null\<rparr>)"
    unfolding idt s1 by simp
  show ?thesis
    using d a b by simp
qed

subsection \<open>Persistence\<close>

lemma persisted_saveTasks: "persisted (saveTasks s)"
  by (simp add: persisted_def saveTasks_def)


lemma show_int_1: "show_int 1 = ''1''"
  by (simp add: show_int_def show_nat.simps)

lemma quote_plain:
  \<open>quote ''Buy milk'' = ''"Buy milk"''\<close>
  \<open>quote ''medium'' = ''"medium"''\<close>
  \<open>quote ''2024-01-01T09:00:00.000Z'' = ''"2024-01-01T09:00:00.000Z"''\<close>
  \<open>quote ''id'' = ''"id"''\<close>
  \<open>quote ''text'' = ''"text"''\<close>
  \<open>quote ''completed'' = ''"completed"''\<close>
  \<open>quote ''date'' = ''"date"''\<close>
  \<open>quote ''priority'' = ''"priority"''\<close>
  \<open>quote ''createdAt'' = ''"createdAt"''\<close>
  \<open>quote ''completedAt'' = ''"completedAt"''\<close>
  by (simp_all add: quote_def quote_char_def)

lemma add_first_task:
  \<open>addTask ''Buy milk'' Undefined Undefined ''2024-01-01T09:00:00.000Z''
      \<lparr>tasks = [], nextId = 1, localStorage = Map.empty\<rparr> =
     (Inr \<lparr>id' = 1, text' = ''Buy milk'', completed = False, date = Null, priority = Str ''medium'',
           createdAt = ''2024-01-01T09:00:00.000Z'', completedAt = Undefined\<rparr>,
      \<lparr>tasks = [\<lparr>id' = 1, text' = ''Buy milk'', completed = False, date = Null,
           priority = Str ''medium'', createdAt = ''2024-01-01T09:00:00.000Z'', completedAt = Undefined\<rparr>],
         nextId = 2,
         localStorage = [''tasks'' \<mapsto>
           ''[{"id":1,"text":"Buy milk","completed":false,"date":null,"priority":"medium","createdAt":"2024-01-01T09:00:00.000Z"}]'']\<rparr>)\<close>
  by (simp add: addTask_def trim_def isWhiteSpace_def default_arg_def Let_def saveTasks_def
      js_of_task_def show_int_1 quote_plain)



subsection \<open>The serialized form\<close>

text \<open>
  C9, as stated, fails: a task created by \<^verbatim>\<open>addTask\<close> has no \<^verbatim>\<open>completedAt\<close>
  property, and the value stored under \<^verbatim>\<open>tasks\<close> has none either (it is not
  \<^verbatim>\<open>"completedAt":null\<close>).
\<close>

theorem new_task_serialized_without_completedAt_counterexample:
  \<open>localStorage (snd (addTask ''Buy milk'' Undefined Undefined ''2024-01-01T09:00:00.000Z''
      \<lparr>tasks = [], nextId = 1, localStorage = Map.empty\<rparr>)) ''tasks'' =
     Some ''[{"id":1,"text":"Buy milk","completed":false,"date":null,"priority":"medium","createdAt":"2024-01-01T09:00:00.000Z"}]'' \<and>
   localStorage (snd (addTask ''Buy milk'' Undefined Undefined ''2024-01-01T09:00:00.000Z''
      \<lparr>tasks = [], nextId = 1, localStorage = Map.empty\<rparr>)) ''tasks'' \<noteq>
     Some ''[{"id":1,"text":"Buy milk","completed":false,"date":null,"priority":"medium","createdAt":"2024-01-01T09:00:00.000Z","completedAt":null}]''\<close>
  by (simp add: add_first_task)

lemma stringify_new_task:
  assumes "completedAt t = Undefined" and "date t \<noteq> Undefined" and "priority t \<noteq> Undefined"
  shows \<open>JSON_stringify (js_of_task t) =
     ''{"id":'' @ show_int (id' t) @ '',"text":'' @ quote (text' t) @
     '',"completed":'' @ (if completed t then ''true'' else ''false'') @
     '',"date":'' @ JSON_stringify (date t) @
     '',"priority":'' @ JSON_stringify (priority t) @
     '',"createdAt":'' @ quote (createdAt t) @ ''}''\<close>
  using assms by (simp add: js_of_task_def quote_plain)

lemma stringify_toggled_task:
  assumes "completedAt t \<noteq> Undefined"
  shows \<open>\<exists>pre. JSON_stringify (js_of_task t) =
     pre @ '',"completedAt":'' @ JSON_stringify (completedAt t) @ ''}''\<close>
proof (cases "date t = Undefined"; cases "priority t = Undefined")
qed (use assms in \<open>simp_all add: js_of_task_def quote_plain\<close>)

lemma assign_found_mem: "List.find P xs = Some x \<Longrightarrow> y \<in> set (assign_found P y xs)"
  by (induction xs) (auto split: if_splits)

text \<open>
  C9, amended. After \<^verbatim>\<open>addTask\<close> or \<^verbatim>\<open>toggleTaskCompletion\<close> has returned a task,
  the value under \<^verbatim>\<open>tasks\<close> is the serialization of the array of all stored task
  records. The task \<^verbatim>\<open>addTask\<close> created is serialized with exactly the six fields
  id, text, completed, date, priority and createdAt, and no \<^verbatim>\<open>completedAt\<close>; the task
  \<^verbatim>\<open>toggleTaskCompletion\<close> returned carries \<^verbatim>\<open>completedAt\<close> as its last field, the
  timestamp string of the call when it is now completed and \<^verbatim>\<open>null\<close> when it is
  pending again.
\<close>

theorem serialized_task_fields:
  \<open>(\<forall>t s'. addTask txt d p now s = (Inr t, s') \<longrightarrow>
      persisted s' \<and> tasks s' = tasks s @ [t] \<and>
      JSON_stringify (js_of_task t) =
        ''{"id":'' @ show_int (id' t) @ '',"text":'' @ quote (text' t) @
        '',"completed":false,"date":'' @ JSON_stringify (date t) @
        '',"priority":'' @ JSON_stringify (priority t) @
        '',"createdAt":'' @ quote now @ ''}'') \<and>
   (\<forall>t s'. toggleTaskCompletion i now s = (Some t, s') \<longrightarrow>
      persisted s' \<and> t \<in> set (tasks s') \<and>
      (\<exists>pre. JSON_stringify (js_of_task t) =
         pre @ '',"completedAt":'' @ (if completed t then quote now else ''null'') @ ''}''))\<close>
proof (intro conjI allI impI)
  fix t s'
  assume a: "addTask txt d p now s = (Inr t, s')"
  then show "persisted s'" and "tasks s' = tasks s @ [t]"
    by (auto simp: addTask_def Let_def persisted_saveTasks split: if_splits)
  from a have "completedAt t = Undefined" "date t \<noteq> Undefined" "priority t \<noteq> Undefined"
    "completed t = False" "createdAt t = now"
    by (auto simp: addTask_def Let_def default_arg_def split: if_splits)
  then show \<open>JSON_stringify (js_of_task t) =
        ''{"id":'' @ show_int (id' t) @ '',"text":'' @ quote (text' t) @
        '',"completed":false,"date":'' @ JSON_stringify (date t) @
        '',"priority":'' @ JSON_stringify (priority t) @
        '',"createdAt":'' @ quote now @ ''}''\<close>
    using stringify_new_task [of t] by simp
next
  fix t s'
  assume a: "toggleTaskCompletion i now s = (Some t, s')"
  then obtain u where u: "List.find (\<lambda>t. id' t = i) (tasks s) = Some u"
    by (auto simp: toggleTaskCompletion_def split: option.splits)
  from a u have t: "t = u\<lparr>completed := \<not> completed u,
                           completedAt := (if \<not> completed u then Str now else Null)\<rparr>"
    and s': "s' = saveTasks (s\<lparr>tasks := assign_found (\<lambda>t. id' t = i) t (tasks s)\<rparr>)"
    by (auto simp: toggleTaskCompletion_def Let_def)
  show "persisted s'"
    unfolding s' by (rule persisted_saveTasks)
  show "t \<in> set (tasks s')"
    unfolding s' using assign_found_mem [OF u] by simp
  have c: "completedAt t = (if completed t then Str now else Null)"
    unfolding t by simp
  then have "completedAt t \<noteq> Undefined"
    by simp
  from stringify_toggled_task [OF this]
  show \<open>\<exists>pre. JSON_stringify (js_of_task t) =
         pre @ '',"completedAt":'' @ (if completed t then quote now else ''null'') @ ''}''\<close>
    unfolding c by (cases "completed t") simp_all
qed

theorem serialized_task_fields_witness:
  \<open>addTask ''Buy milk'' Undefined Undefined ''2024-01-01T09:00:00.000Z''
      \<lparr>tasks = [], nextId = 1, localStorage = Map.empty\<rparr> =
     (Inr \<lparr>id' = 1, text' = ''Buy milk'', completed = False, date = Null, priority = Str ''medium'',
           createdAt = ''2024-01-01T09:00:00.000Z'', completedAt = Undefined\<rparr>,
      \<lparr>tasks = [\<lparr>id' = 1, text' = ''Buy milk'', completed = False, date = Null,
           priority = Str ''medium'', createdAt = ''2024-01-01T09:00:00.000Z'', completedAt = Undefined\<rparr>],
         nextId = 2,
         localStorage = [''tasks'' \<mapsto>
           ''[{"id":1,"text":"Buy milk","completed":false,"date":null,"priority":"medium","createdAt":"2024-01-01T09:00:00.000Z"}]'']\<rparr>) \<and>
   JSON_stringify (js_of_task
      \<lparr>id' = 1, text' = ''Buy milk'', completed = False, date = Null, priority = Str ''medium'',
        createdAt = ''2024-01-01T09:00:00.000Z'', completedAt = Undefined\<rparr>) =
     ''{"id":1,"text":"Buy milk","completed":false,"date":null,"priority":"medium","createdAt":"2024-01-01T09:00:00.000Z"}''\<close>
  using serialized_task_fields [THEN conjunct1, rule_format, OF add_first_task]
  by (simp add: add_first_task show_int_1 quote_plain)

subsection \<open>Loading at construction\<close>

lemma parse_truncated:
  \<open>JSON_parse ''[{"id":1,"text":"Buy milk"'' = Throws SyntaxError\<close>
  by code_simp

lemma parse_one_task:
  \<open>JSON_parse ''[{"id":3,"text":"Buy milk","completed":false,"date":null,"priority":"medium","createdAt":"2024-01-01T09:00:00.000Z"}]'' =
     Returns (Arr [Obj [(''id'', Num 3), (''text'', Str ''Buy milk''), (''completed'', Bool False),
       (''date'', Null), (''priority'', Str ''medium''), (''createdAt'', Str ''2024-01-01T09:00:00.000Z'')]])\<close>
  by code_simp


text \<open>
  C2, as stated, fails: when the value under \<^verbatim>\<open>tasks\<close> is not valid JSON (here a
  write cut short), \<^verbatim>\<open>JSON.parse\<close> throws and nothing catches it, so
  \<^verbatim>\<open>loadTasks\<close> and the constructor throw \<^verbatim>\<open>SyntaxError\<close> instead of yielding an
  empty collection.
\<close>

theorem load_malformed_throws_counterexample:
  \<open>loadTasks [''tasks'' \<mapsto> ''[{"id":1,"text":"Buy milk"''] = Throws SyntaxError \<and>
   new_TaskManager [''tasks'' \<mapsto> ''[{"id":1,"text":"Buy milk"''] = Throws SyntaxError\<close>
  by (simp add: loadTasks_def new_TaskManager_def parse_truncated)

text \<open>
  C2, amended. The load at construction yields the empty collection when the key
  \<^verbatim>\<open>tasks\<close> is absent or holds the empty string, silently. For any other stored
  string it is \<^verbatim>\<open>JSON.parse\<close> of that string; when the string is not valid JSON the
  \<^verbatim>\<open>SyntaxError\<close> propagates out of \<^verbatim>\<open>loadTasks\<close> and out of the constructor.
\<close>

theorem load_empty_on_absence_else_parse:
  "(ls ''tasks'' = None \<or> ls ''tasks'' = Some [] \<longrightarrow>
      loadTasks ls = Returns (Arr []) \<and>
      new_TaskManager ls = Returns \<lparr>tasks = [], nextId = 1, localStorage = ls\<rparr>) \<and>
   (\<forall>str. ls ''tasks'' = Some str \<and> str \<noteq> [] \<longrightarrow> loadTasks ls = JSON_parse str) \<and>
   (\<forall>str. ls ''tasks'' = Some str \<and> str \<noteq> [] \<and> JSON_parse str = Throws SyntaxError \<longrightarrow>
      new_TaskManager ls = Throws SyntaxError)"
  by (auto simp: loadTasks_def new_TaskManager_def those_list_def getNextId_def)

theorem load_empty_on_absence_else_parse_witness:
  \<open>new_TaskManager Map.empty = Returns \<lparr>tasks = [], nextId = 1, localStorage = Map.empty\<rparr> \<and>
   loadTasks [''tasks'' \<mapsto> ''[{"id":3,"text":"Buy milk","completed":false,"date":null,"priority":"medium","createdAt":"2024-01-01T09:00:00.000Z"}]''] =
     Returns (Arr [Obj [(''id'', Num 3), (''text'', Str ''Buy milk''), (''completed'', Bool False),
       (''date'', Null), (''priority'', Str ''medium''), (''createdAt'', Str ''2024-01-01T09:00:00.000Z'')]])\<close>
proof -
  have a: "new_TaskManager Map.empty = Returns \<lparr>tasks = [], nextId = 1, localStorage = Map.empty\<rparr>"
    using load_empty_on_absence_else_parse [of Map.empty, THEN conjunct1] by simp
  have b: \<open>loadTasks [''tasks'' \<mapsto> ''[{"id":3,"text":"Buy milk","completed":false,"date":null,"priority":"medium","createdAt":"2024-01-01T09:00:00.000Z"}]''] =
     JSON_parse ''[{"id":3,"text":"Buy milk","completed":false,"date":null,"priority":"medium","createdAt":"2024-01-01T09:00:00.000Z"}]''\<close>
    using load_empty_on_absence_else_parse [THEN conjunct2, THEN conjunct1, rule_format,
      of \<open>[''tasks'' \<mapsto> ''[{"id":3,"text":"Buy milk","completed":false,"date":null,"priority":"medium","createdAt":"2024-01-01T09:00:00.000Z"}]'']\<close>
         \<open>''[{"id":3,"text":"Buy milk","completed":false,"date":null,"priority":"medium","createdAt":"2024-01-01T09:00:00.000Z"}]''\<close>]
    by simp
  show ?thesis
    using a b by (simp only: parse_one_task simp_thms)
qed

subsection \<open>The id counter\<close>









lemma last_states: "run xs s0 \<in> set (states xs s0)"
  by (induction xs arbitrary: s0) (simp_all add: run_def)





text \<open>
  Unique ids, which the toggle property above assumes, are kept by every operation of a
  store whose counter is above its ids.
\<close>

lemma map_assign_found:
  "f y = k \<Longrightarrow> map f (assign_found (\<lambda>u. f u = k) y xs) = map f xs"
  by (induction xs) auto

lemma distinct_splice:
  assumes "distinct ys"
  shows "distinct (take k ys @ drop (Suc k) ys)"
  using assms set_take_disj_set_drop_if_distinct [of ys k "Suc k"]
  by simp

lemma exec_ids_distinct:
  assumes "ids_below_counter s" and "distinct (map id' (tasks s))"
  shows "distinct (map id' (tasks (exec x s)))"
proof (cases x)
  case (AddTask tx d p now)
  have "nextId s \<notin> id' ` set (tasks s)"
    using assms(1) by (auto simp: ids_below_counter_def)
  with assms(2) AddTask show ?thesis
    by (simp add: addTask_def Let_def)
next
  case (ToggleTaskCompletion i now)
  show ?thesis
  proof (cases "List.find (\<lambda>t. id' t = i) (tasks s)")
    case None
    with assms(2) ToggleTaskCompletion show ?thesis
      by (simp add: toggleTaskCompletion_def)
  next
    case (Some t)
    then have "id' t = i"
      using find_SomeD [of "\<lambda>t. id' t = i" "tasks s" t] by simp
    then have "map id' (assign_found (\<lambda>t. id' t = i)
        (t\<lparr>completed := \<not> completed t, completedAt := (if \<not> completed t then Str now else Null)\<rparr>)
        (tasks s)) = map id' (tasks s)"
      by (intro map_assign_found) simp
    with assms(2) ToggleTaskCompletion Some show ?thesis
      by (simp add: toggleTaskCompletion_def Let_def)
  qed
next
  case (DeleteTask i)
  show ?thesis
  proof (cases "findIndex (\<lambda>t. id' t = i) (tasks s)")
    case None
    with assms(2) DeleteTask show ?thesis
      by (simp add: deleteTask_def)
  next
    case (Some k)
    have "distinct (map id' (take k (tasks s) @ drop (Suc k) (tasks s)))"
      using distinct_splice [OF assms(2), of k] by (simp add: take_map drop_map)
    with DeleteTask Some show ?thesis
      by (simp add: deleteTask_def)
  qed
next
  case ClearCompletedTasks
  with assms(2) show ?thesis
    by (simp add: clearCompletedTasks_def Let_def distinct_map_filter)
qed

subsection \<open>Statistics\<close>

lemma ilog2_bounds:
  assumes "0 < x"
  shows "2 powi (ilog2 x) \<le> x" and "x < 2 powi (ilog2 x + 1)"
proof -
  obtain a b where q: "quotient_of x = (a, b)"
    by (cases "quotient_of x")
  have b: "0 < b"
    using quotient_of_denom_pos [OF q] .
  have x: "x = of_int a / of_int b"
    using quotient_of_div [OF q] .
  have a: "0 < a"
    using assms b x by (simp add: zero_less_divide_iff)
  define la where "la = bitlen a"
  define lb where "lb = bitlen b"
  have la: "(2::rat) powi (la - 1) \<le> of_int a" "of_int a < (2::rat) powi la"
  proof -
    have "2 ^ nat (la - 1) \<le> a" "a < 2 ^ nat la"
      using bitlen_bounds [OF a] by (simp_all add: la_def)
    then have "(of_int (2 ^ nat (la - 1)) :: rat) \<le> of_int a" "(of_int a :: rat) < of_int (2 ^ nat la)"
      by (simp_all only: of_int_le_iff of_int_less_iff)
    moreover have "0 < la"
      using \<open>a < 2 ^ nat la\<close> a by (cases "0 < la") auto
    ultimately show "(2::rat) powi (la - 1) \<le> of_int a" "of_int a < (2::rat) powi la"
      by (simp_all add: power_int_def)
  qed
  have lb: "(2::rat) powi (lb - 1) \<le> of_int b" "of_int b < (2::rat) powi lb"
  proof -
    have "2 ^ nat (lb - 1) \<le> b" "b < 2 ^ nat lb"
      using bitlen_bounds [OF b] by (simp_all add: lb_def)
    then have "(of_int (2 ^ nat (lb - 1)) :: rat) \<le> of_int b" "(of_int b :: rat) < of_int (2 ^ nat lb)"
      by (simp_all only: of_int_le_iff of_int_less_iff)
    moreover have "0 < lb"
      using \<open>b < 2 ^ nat lb\<close> b by (cases "0 < lb") auto
    ultimately show "(2::rat) powi (lb - 1) \<le> of_int b" "of_int b < (2::rat) powi lb"
      by (simp_all add: power_int_def)
  qed
  have bpos: "(0::rat) < of_int b" and apos: "(0::rat) < of_int a"
    using a b by simp_all
  have lower: "(2::rat) powi (la - lb - 1) < x"
  proof -
    have "(2::rat) powi (la - lb - 1) * of_int b < 2 powi (la - lb - 1) * 2 powi lb"
      using lb(2) by (simp add: mult_strict_left_mono)
    also have "\<dots> = 2 powi (la - 1)"
      by (simp add: power_int_add [symmetric])
    also have "\<dots> \<le> of_int a"
      using la(1) .
    finally show ?thesis
      using bpos by (simp add: x pos_less_divide_eq)
  qed
  have upper: "x < (2::rat) powi (la - lb + 1)"
  proof -
    have "of_int a < (2::rat) powi la"
      using la(2) .
    also have "\<dots> = 2 powi (la - lb + 1) * 2 powi (lb - 1)"
      by (simp add: power_int_add [symmetric])
    also have "\<dots> \<le> 2 powi (la - lb + 1) * of_int b"
      using lb(1) by (simp add: mult_left_mono)
    finally show ?thesis
      using bpos by (simp add: x pos_divide_less_eq)
  qed
  have e: "ilog2 x = (if 2 powi (la - lb) \<le> x then la - lb else la - lb - 1)"
    by (simp add: ilog2_def q la_def lb_def)
  show "2 powi (ilog2 x) \<le> x"
    using lower by (simp add: e)
  show "x < 2 powi (ilog2 x + 1)"
    using upper by (auto simp: e)
qed

lemma round_half_even_error: "\<bar>of_int (round_half_even y) - y\<bar> \<le> 1 / 2"
proof -
  have "of_int \<lfloor>y\<rfloor> \<le> y" "y < of_int \<lfloor>y\<rfloor> + 1"
    by linarith+
  then show ?thesis
    by (auto simp: round_half_even_def Let_def)
qed

lemma round_half_even_le:
  assumes "y \<le> of_int N"
  shows "round_half_even y \<le> N"
proof -
  have fl: "\<lfloor>y\<rfloor> \<le> N"
    using assms by (simp add: floor_le_iff)
  show ?thesis
  proof (cases "\<lfloor>y\<rfloor> = N")
    case True
    then have "y - of_int \<lfloor>y\<rfloor> \<le> 0"
      using assms by simp
    then show ?thesis
      using True by (simp add: round_half_even_def Let_def)
  next
    case False
    with fl have "\<lfloor>y\<rfloor> + 1 \<le> N"
      by simp
    then show ?thesis
      by (auto simp: round_half_even_def Let_def)
  qed
qed

lemma round_half_even_nonneg:
  assumes "0 \<le> y"
  shows "0 \<le> round_half_even y"
proof -
  have "0 \<le> \<lfloor>y\<rfloor>"
    using assms by simp
  then show ?thesis
    by (auto simp: round_half_even_def Let_def)
qed

lemma two_powi_le_cancel:
  assumes "(2::rat) powi m \<le> 2 powi n"
  shows "m \<le> n"
proof (rule ccontr)
  assume "\<not> m \<le> n"
  then have "(2::rat) powi n < 2 powi m"
    by (intro power_int_strict_increasing) simp_all
  with assms show False
    by simp
qed

lemma two_powi_less_cancel:
  assumes "(2::rat) powi m < 2 powi n"
  shows "m < n"
proof (rule ccontr)
  assume "\<not> m < n"
  then have "(2::rat) powi n \<le> 2 powi m"
    by (intro power_int_increasing) simp_all
  with assms show False
    by simp
qed

lemma ilog2_le:
  assumes "0 < x" and "x \<le> 2 powi k"
  shows "ilog2 x \<le> k"
proof -
  have "(2::rat) powi (ilog2 x) \<le> 2 powi k"
    using ilog2_bounds(1) [OF assms(1)] assms(2) by simp
  then show ?thesis
    by (rule two_powi_le_cancel)
qed

lemma ilog2_ge:
  assumes "0 < x" and "2 powi k \<le> x"
  shows "k \<le> ilog2 x"
proof -
  have "(2::rat) powi k < 2 powi (ilog2 x + 1)"
    using ilog2_bounds(2) [OF assms(1)] assms(2) by simp
  then have "k < ilog2 x + 1"
    by (rule two_powi_less_cancel)
  then show ?thesis
    by simp
qed

text \<open>Relative error of one rounding, away from the subnormal range.\<close>

lemma to_double_error:
  assumes "2 powi (- 1022) \<le> x"
  shows "\<bar>to_double x - x\<bar> \<le> x / 2 ^ 53"
proof -
  have pos: "0 < x"
    using assms by (rule less_le_trans [rotated]) simp
  define e where "e = ilog2 x"
  define u :: rat where "u = 2 powi (e - 52)"
  have e: "- 1022 \<le> e"
    unfolding e_def using pos assms by (rule ilog2_ge)
  have upos: "0 < u"
    by (simp add: u_def)
  have fl: "to_double x = of_int (round_half_even (x / u)) * u"
    using pos e by (simp add: to_double_def Let_def u_def e_def max_def)
  have "to_double x - x = (of_int (round_half_even (x / u)) - x / u) * u"
    using upos by (simp add: fl left_diff_distrib)
  then have "\<bar>to_double x - x\<bar> = \<bar>of_int (round_half_even (x / u)) - x / u\<bar> * u"
    using upos by (simp add: abs_mult)
  also have "\<dots> \<le> 1 / 2 * u"
    using round_half_even_error [of "x / u"] upos by (intro mult_right_mono) simp_all
  also have "\<dots> = 2 powi e / 2 ^ 53"
    by (simp add: u_def power_int_diff)
  also have "\<dots> \<le> x / 2 ^ 53"
    using ilog2_bounds(1) [OF pos] by (simp add: e_def divide_right_mono)
  finally show ?thesis .
qed

text \<open>Rounding does not pass an integer multiple of a power of two that a double holds.\<close>

lemma to_double_le:
  assumes "0 < x" and "x \<le> of_int K" and "x \<le> 2 powi 52"
  shows "to_double x \<le> of_int K"
proof -
  define e where "e = max (ilog2 x) (- 1022)"
  define u :: rat where "u = 2 powi (e - 52)"
  have e: "e \<le> 52"
    using ilog2_le [OF assms(1,3)] by (simp add: e_def)
  have upos: "0 < u"
    by (simp add: u_def)
  have fl: "to_double x = of_int (round_half_even (x / u)) * u"
    using assms(1) by (simp add: to_double_def Let_def u_def e_def)
  have inv: "1 / u = of_int (2 ^ nat (52 - e))"
    using e by (simp add: u_def power_int_diff power_int_def field_simps)
  have "x / u \<le> of_int K / u"
    using assms(2) upos by (simp add: divide_right_mono)
  also have "\<dots> = of_int K * (1 / u)"
    by simp
  also have "\<dots> = of_int (K * 2 ^ nat (52 - e))"
    unfolding inv by simp
  finally have "round_half_even (x / u) \<le> K * 2 ^ nat (52 - e)"
    by (rule round_half_even_le)
  then have "(of_int (round_half_even (x / u)) :: rat) \<le> of_int (K * 2 ^ nat (52 - e))"
    by (simp only: of_int_le_iff)
  then have "of_int (round_half_even (x / u)) * u \<le> of_int (K * 2 ^ nat (52 - e)) * u"
    using upos by (intro mult_right_mono) simp_all
  also have "of_int (K * 2 ^ nat (52 - e)) * u = of_int K * (1 / u) * u"
    using inv by simp
  also have "\<dots> = of_int K"
    using upos by simp
  finally show ?thesis
    by (simp add: fl)
qed

lemma to_double_nonneg:
  assumes "0 \<le> x"
  shows "0 \<le> to_double x"
proof (cases "x = 0")
  case True
  then show ?thesis by (simp add: to_double_def)
next
  case False
  define u :: rat where "u = 2 powi (max (ilog2 \<bar>x\<bar>) (- 1022) - 52)"
  have upos: "0 < u"
    by (simp add: u_def)
  have "0 \<le> x / u"
    using assms upos by simp
  then have "0 \<le> round_half_even (x / u)"
    by (rule round_half_even_nonneg)
  then show ?thesis
    using False upos by (simp add: to_double_def Let_def u_def [symmetric])
qed

lemma Math_round_bounds: "of_int (Math_round x) \<le> x + 1 / 2" "x - 1 / 2 < of_int (Math_round x)"
  unfolding Math_round_def by linarith+

lemma rate_zero: "Math_round (to_double (to_double 0 * 100)) = 0"
proof -
  have "\<lfloor>(1::rat) / 2\<rfloor> = 0"
    by (rule floor_unique) simp_all
  then show ?thesis
    by (simp add: to_double_def Math_round_def)
qed

text \<open>
  The rate is within one half of the exact percentage: the two roundings move the value
  by less than \<open>2 powi - 45\<close>, too little to reach another integer when the array has
  fewer than \<open>2 ^ 32\<close> elements, the most a JavaScript array can have.
\<close>

lemma rate_nearest:
  fixes c n :: int
  assumes c: "0 < c" and cn: "c \<le> n" and n: "n < 2 ^ 32"
  defines "r \<equiv> Math_round (to_double (to_double (of_int c / of_int n) * 100))"
  shows "2 * \<bar>r * n - 100 * c\<bar> \<le> n"
proof -
  define q :: rat where "q = of_int c / of_int n"
  define f where "f = to_double q"
  define p where "p = f * 100"
  define X where "X = to_double p"
  have r: "r = Math_round X"
    by (simp add: r_def X_def p_def f_def q_def)
  have npos: "(0::rat) < of_int n"
    using c cn by simp
  have q1: "q \<le> 1"
    using cn npos by (simp add: q_def)
  have "1 / of_int n \<le> q"
    using c npos by (simp add: q_def divide_right_mono)
  moreover have "(1::rat) / 2 ^ 32 \<le> 1 / of_int n"
  proof -
    have "(of_int n :: rat) \<le> of_int (2 ^ 32)"
      using n by (simp only: of_int_le_iff)
    then show ?thesis
      using npos by (simp add: frac_le)
  qed
  ultimately have qlow: "1 / 2 ^ 32 \<le> q"
    by simp
  have qpos: "0 < q"
    using qlow by (rule less_le_trans [rotated]) simp
  have small: "(2::rat) powi (- 1022) \<le> 1 / 2 ^ 32"
    by (simp add: power_int_minus field_simps)
  have e1: "\<bar>f - q\<bar> \<le> q / 2 ^ 53"
    unfolding f_def using small qlow by (intro to_double_error) simp
  have f1: "f \<le> 1"
    using to_double_le [of q 1] qpos q1 by (simp add: f_def)
  have "q / 2 ^ 53 \<le> q / 2"
    using qpos by (intro divide_left_mono) simp_all
  then have flow: "q / 2 \<le> f"
    using e1 by linarith
  have p100: "p \<le> 100"
    using f1 by (simp add: p_def)
  have plow: "1 / 2 ^ 32 \<le> p"
    using flow qlow by (simp add: p_def)
  have ppos: "0 < p"
    using plow by (rule less_le_trans [rotated]) simp
  have e2: "\<bar>X - p\<bar> \<le> p / 2 ^ 53"
    unfolding X_def using small plow by (intro to_double_error) simp
  have "\<bar>X - 100 * q\<bar> \<le> \<bar>X - p\<bar> + \<bar>p - 100 * q\<bar>"
    by simp
  also have "\<bar>p - 100 * q\<bar> = 100 * \<bar>f - q\<bar>"
    by (simp add: p_def abs_if)
  finally have "\<bar>X - 100 * q\<bar> \<le> p / 2 ^ 53 + 100 * (q / 2 ^ 53)"
    using e1 e2 by simp
  also have "\<dots> \<le> 200 / 2 ^ 53"
    using p100 q1 by simp
  finally have "\<bar>X - 100 * q\<bar> \<le> 200 / 2 ^ 53" .
  moreover define eps :: rat where "eps = 200 / 2 ^ 53"
  ultimately have eX: "\<bar>X - 100 * q\<bar> \<le> eps"
    by simp
  have R: "of_int r \<le> X + 1 / 2" "X - 1 / 2 < of_int r"
    using Math_round_bounds [of X] by (simp_all add: r)
  have near: "\<bar>of_int r - 100 * q\<bar> \<le> 1 / 2 + eps"
    using R eX by linarith
  have "(of_int (2 * \<bar>r * n - 100 * c\<bar>) :: rat) = 2 * of_int n * \<bar>of_int r - 100 * q\<bar>"
  proof -
    have "(of_int r :: rat) * of_int n - 100 * of_int c = of_int n * (of_int r - 100 * q)"
      using npos by (simp add: q_def field_simps)
    then have "\<bar>(of_int r :: rat) * of_int n - 100 * of_int c\<bar> = of_int n * \<bar>of_int r - 100 * q\<bar>"
      using npos by (simp add: abs_mult)
    then show ?thesis
      by simp
  qed
  also have "\<dots> \<le> 2 * of_int n * (1 / 2 + eps)"
    using near npos by (intro mult_left_mono) simp_all
  also have "\<dots> = of_int n + of_int n * (400 / 2 ^ 53)"
    by (simp add: eps_def field_simps)
  also have "\<dots> < of_int n + 1"
  proof -
    have "(of_int n :: rat) < of_int (2 ^ 32)"
      using n by (simp only: of_int_less_iff)
    then have "(of_int n :: rat) * (400 / 2 ^ 53) < 2 ^ 32 * (400 / 2 ^ 53)"
      by (intro mult_strict_right_mono) simp_all
    also have "\<dots> < 1"
      by simp
    finally show ?thesis
      by simp
  qed
  finally have "(of_int (2 * \<bar>r * n - 100 * c\<bar>) :: rat) < of_int (n + 1)"
    by simp
  then have "2 * \<bar>r * n - 100 * c\<bar> < n + 1"
    by (simp only: of_int_less_iff)
  then show ?thesis
    by simp
qed

text \<open>The rate is between 0 and 100 whatever the size of the collection.\<close>

lemma rate_range:
  fixes c n :: int
  assumes c: "0 \<le> c" and cn: "c \<le> n" and n: "0 < n"
  defines "r \<equiv> Math_round (to_double (to_double (of_int c / of_int n) * 100))"
  shows "0 \<le> r" and "r \<le> 100"
proof -
  define q :: rat where "q = of_int c / of_int n"
  define f where "f = to_double q"
  define p where "p = f * 100"
  define X where "X = to_double p"
  have r: "r = Math_round X"
    by (simp add: r_def X_def p_def f_def q_def)
  have npos: "(0::rat) < of_int n"
    using n by simp
  have q0: "0 \<le> q" and q1: "q \<le> 1"
    using c cn npos by (simp_all add: q_def)
  have f0: "0 \<le> f"
    unfolding f_def using q0 by (rule to_double_nonneg)
  have f1: "f \<le> 1"
  proof (cases "q = 0")
    case True
    then show ?thesis by (simp add: f_def to_double_def)
  next
    case False
    then show ?thesis
      using to_double_le [of q 1] q0 q1 by (simp add: f_def)
  qed
  have p0: "0 \<le> p" and p100: "p \<le> 100"
    using f0 f1 by (simp_all add: p_def)
  have X0: "0 \<le> X"
    unfolding X_def using p0 by (rule to_double_nonneg)
  have X100: "X \<le> 100"
  proof (cases "p = 0")
    case True
    then show ?thesis by (simp add: X_def to_double_def)
  next
    case False
    then show ?thesis
      using to_double_le [of p 100] p0 p100 by (simp add: X_def)
  qed
  have R: "of_int r \<le> X + 1 / 2" "X - 1 / 2 < of_int r"
    using Math_round_bounds [of X] by (simp_all add: r)
  have "(0::rat) - 1 < of_int r"
    using R(2) X0 by simp
  then have "0 - 1 < r"
    by (simp only: of_int_less_iff [symmetric, where ?'a = rat] of_int_diff of_int_0 of_int_1)
  then show "0 \<le> r"
    by simp
  have "(of_int r :: rat) < 101"
    using R(1) X100 by simp
  then have "r < 101"
    by (simp only: of_int_less_iff [symmetric, where ?'a = rat] of_int_numeral)
  then show "r \<le> 100"
    by simp
qed

text \<open>
  At an exact tie the double arithmetic decides: 29 completed of 200 is 14.5 percent,
  the product \<^verbatim>\<open>(29 / 200) * 100\<close> is the double just below 14.5, and the rate is 14.
\<close>

lemma rate_29_of_200: "Math_round (to_double (to_double (29 / 200) * 100)) = 14"
  by code_simp

text \<open>
  C5. \<^verbatim>\<open>getStats\<close> returns the number of tasks, the number of completed tasks and
  their difference. The rate is \<^verbatim>\<open>Math.round((completed / total) * 100)\<close> in double
  arithmetic, and 0 for an empty collection; it is an integer from 0 to 100, and (for
  an array of fewer than \<open>2 ^ 32\<close> elements, the most JavaScript allows) an integer
  nearest to the exact percentage, within one half of it.
\<close>

theorem getStats_counts_and_rate:
  "total (getStats s) = int (length (tasks s)) \<and>
   completed' (getStats s) = int (length (filter completed (tasks s))) \<and>
   pending (getStats s) = total (getStats s) - completed' (getStats s) \<and>
   completionRate (getStats s) =
     (if tasks s = [] then 0
      else Math_round (to_double (to_double
             (of_int (completed' (getStats s)) / of_int (total (getStats s))) * 100))) \<and>
   0 \<le> completionRate (getStats s) \<and> completionRate (getStats s) \<le> 100 \<and>
   (total (getStats s) = 0 \<longrightarrow> completionRate (getStats s) = 0) \<and>
   (length (tasks s) < 2 ^ 32 \<longrightarrow>
      2 * \<bar>completionRate (getStats s) * total (getStats s) - 100 * completed' (getStats s)\<bar>
        \<le> total (getStats s))"
proof -
  define n where "n = int (length (tasks s))"
  define c where "c = int (length (filter completed (tasks s)))"
  define r where "r = (if n > 0 then Math_round (to_double (to_double (of_int c / of_int n) * 100)) else 0)"
  have g: "getStats s = \<lparr>total = n, completed' = c, pending = n - c, completionRate = r\<rparr>"
    by (simp add: getStats_def Let_def n_def c_def r_def)
  have c0: "0 \<le> c" and cn: "c \<le> n"
    by (simp_all add: c_def n_def)
  have n0: "n > 0 \<longleftrightarrow> tasks s \<noteq> []"
    by (simp add: n_def)
  have range: "0 \<le> r \<and> r \<le> 100"
  proof (cases "n > 0")
    case True
    then show ?thesis
      using rate_range [OF c0 cn True] by (simp add: r_def)
  next
    case False
    then show ?thesis by (simp add: r_def)
  qed
  have near: "2 * \<bar>r * n - 100 * c\<bar> \<le> n" if "length (tasks s) < 2 ^ 32"
  proof -
    have nb: "n < 2 ^ 32"
    proof -
      have "int (length (tasks s)) < int (2 ^ 32)"
        using that by (simp only: of_nat_less_iff)
      then show ?thesis
        by (simp add: n_def)
    qed
    show ?thesis
    proof (cases "c > 0")
      case True
      then have "n > 0"
        using cn by simp
      then show ?thesis
        using rate_nearest [OF True cn nb] by (simp add: r_def)
    next
      case False
      then have "c = 0"
        using c0 by simp
      then show ?thesis
        using rate_zero by (simp add: r_def n_def)
    qed
  qed
  have n: "n = int (length (tasks s))"
    by (simp add: n_def)
  have c: "c = int (length (filter completed (tasks s)))"
    by (simp add: c_def)
  have r: "r = (if tasks s = [] then 0
                else Math_round (to_double (to_double (of_int c / of_int n) * 100)))"
    using n0 by (simp add: r_def)
  have empty: "n = 0 \<longrightarrow> r = 0"
    by (simp add: r_def)
  show ?thesis
    unfolding g stats.select_convs
    using n c r range empty near by blast
qed

theorem getStats_counts_and_rate_witness:
  "getStats
     \<lparr>tasks = [\<lparr>id' = 1, text' = ''Buy milk'', completed = True, date = Null,
                 priority = Str ''medium'', createdAt = ''2024-01-01T09:00:00.000Z'',
                 completedAt = Str ''2024-01-02T10:00:00.000Z''\<rparr>,
               \<lparr>id' = 2, text' = ''Ship release'', completed = False, date = Str ''2024-01-01'',
                 priority = Str ''high'', createdAt = ''2024-01-01T09:05:00.000Z'',
                 completedAt = Undefined\<rparr>],
      nextId = 3, localStorage = Map.empty\<rparr> =
   \<lparr>total = 2, completed' = 1, pending = 1, completionRate = 50\<rparr>"
proof -
  let ?s = "\<lparr>tasks = [\<lparr>id' = 1, text' = ''Buy milk'', completed = True, date = Null,
                 priority = Str ''medium'', createdAt = ''2024-01-01T09:00:00.000Z'',
                 completedAt = Str ''2024-01-02T10:00:00.000Z''\<rparr>,
               \<lparr>id' = 2, text' = ''Ship release'', completed = False, date = Str ''2024-01-01'',
                 priority = Str ''high'', createdAt = ''2024-01-01T09:05:00.000Z'',
                 completedAt = Undefined\<rparr>],
      nextId = 3, localStorage = Map.empty\<rparr>"
  note th = getStats_counts_and_rate [of ?s]
  have len: "length (tasks ?s) < 2 ^ 32"
    by simp
  from th have "total (getStats ?s) = int (length (tasks ?s))"
    by blast
  then have t: "total (getStats ?s) = 2"
    by simp
  from th have "completed' (getStats ?s) = int (length (filter completed (tasks ?s)))"
    by blast
  then have c: "completed' (getStats ?s) = 1"
    by simp
  from th have "pending (getStats ?s) = total (getStats ?s) - completed' (getStats ?s)"
    by blast
  then have p: "pending (getStats ?s) = 1"
    unfolding t c by simp
  from th len
  have "2 * \<bar>completionRate (getStats ?s) * total (getStats ?s) - 100 * completed' (getStats ?s)\<bar>
          \<le> total (getStats ?s)"
    by blast
  then have r: "completionRate (getStats ?s) = 50"
    unfolding t c by presburger
  have "getStats ?s = \<lparr>total = total (getStats ?s), completed' = completed' (getStats ?s),
      pending = pending (getStats ?s), completionRate = completionRate (getStats ?s)\<rparr>"
    by simp
  then show ?thesis
    unfolding t c p r .
qed

end
